theory Spec2Isabelle
  imports Main "HOL-Library.Sublist"
begin

section \<open>Network clients: bridge and interface commands (core/nodes/netclient.py)\<close>

text \<open>
  The module builds command strings and hands them to a function \<open>run\<close> stored in the
  client object. Its only effect on the world is the sequence of invocations of \<open>run\<close>;
  the only values it computes are the outputs \<open>run\<close> returns and the boolean of
  \<open>existing_bridges\<close>. The model therefore threads the list of invocations made so
  far (the trace) through every method, and lets \<open>run\<close> answer an invocation as a function
  of the invocations the host has already received: any deterministic host is such a
  function.
\<close>

subsection \<open>Exceptions, invocations, programs\<close>

text \<open>
  The exceptions a method can end with: whatever \<open>run\<close> raises (the executor's failure
  carries an exit code and the captured output), and the exceptions of the Python
  operations the methods apply to the outputs.
\<close>

datatype error =
    CommandError int string
  | JSONDecodeError
  | IndexError
  | KeyError
  | TypeError
  | AttributeError

text \<open>
  One call of \<open>self.run\<close>: the command string, and the keyword \<open>shell\<close> when the
  call passes it (\<open>None\<close>: the call leaves it to the default of \<open>run\<close>).
\<close>

record invocation =
  args :: string
  shell :: "bool option"

type_synonym trace = "invocation list"

type_synonym runner = "trace \<Rightarrow> invocation \<Rightarrow> error + string"

type_synonym 'a prog = "trace \<Rightarrow> (error + 'a) \<times> trace"

definition return_prog :: "'a \<Rightarrow> 'a prog" where
  "return_prog x tr = (Inr x, tr)"

definition raise_prog :: "error \<Rightarrow> 'a prog" where
  "raise_prog e tr = (Inl e, tr)"

definition bind_prog :: "'a prog \<Rightarrow> ('a \<Rightarrow> 'b prog) \<Rightarrow> 'b prog" where
  "bind_prog m f tr =
     (case m tr of
        (Inl e, tr') \<Rightarrow> (Inl e, tr')
      | (Inr x, tr') \<Rightarrow> f x tr')"

text \<open>An expression statement: the value is dropped, an exception is not.\<close>

definition discard :: "'a prog \<Rightarrow> unit prog" where
  "discard m = bind_prog m (\<lambda>_. return_prog ())"

text \<open>
  A suite of statements that ends without a \<open>return\<close>: they run in order, the first
  exception ends the suite, and falling off the end returns \<open>None\<close>.
\<close>

fun block :: "unit prog list \<Rightarrow> unit prog" where
  "block [] = return_prog ()"
| "block (s # ss) = bind_prog s (\<lambda>_. block ss)"

subsection \<open>The client object and the imported constants\<close>

text \<open>
  \<open>core.constants\<close> is generated at build time and gives the paths of the four
  binaries; the methods only interpolate them, so they are parameters here.
\<close>

record constants =
  IP_BIN :: string
  OVS_BIN :: string
  TC_BIN :: string
  ETHTOOL_BIN :: string

datatype client_class = LinuxNetClient | OvsNetClient

record net_client =
  cls :: client_class
  run :: runner

text \<open>\<open>self.run(cmd)\<close> and \<open>self.run(cmd, shell=True)\<close>.\<close>

definition call_run :: "net_client \<Rightarrow> string \<Rightarrow> string prog" where
  "call_run self cmd tr =
     (run self tr \<lparr>args = cmd, shell = None\<rparr>, tr @ [\<lparr>args = cmd, shell = None\<rparr>])"

definition call_run_shell :: "net_client \<Rightarrow> string \<Rightarrow> bool \<Rightarrow> string prog" where
  "call_run_shell self cmd sh tr =
     (run self tr \<lparr>args = cmd, shell = Some sh\<rparr>, tr @ [\<lparr>args = cmd, shell = Some sh\<rparr>])"

definition get_net_client :: "bool \<Rightarrow> runner \<Rightarrow> net_client" where
  "get_net_client use_ovs r =
     (if use_ovs then \<lparr>cls = OvsNetClient, run = r\<rparr>
      else \<lparr>cls = LinuxNetClient, run = r\<rparr>)"

subsection \<open>Formatting integers\<close>

text \<open>\<open>f"{ttl}"\<close> on an \<open>int\<close> is its decimal numeral, with a minus sign below zero.\<close>

definition digit_char :: "nat \<Rightarrow> char" where
  "digit_char d = ''0123456789'' ! d"

fun str_nat :: "nat \<Rightarrow> string" where
  "str_nat n =
     (if n < 10 then [digit_char n]
      else str_nat (n div 10) @ [digit_char (n mod 10)])"

declare str_nat.simps [simp del]

definition str_int :: "int \<Rightarrow> string" where
  "str_int i = (if i < 0 then CHR ''-'' # str_nat (nat (- i)) else str_nat (nat i))"

subsection \<open>Classes and method lookup\<close>

text \<open>
  \<open>class OvsNetClient(LinuxNetClient)\<close>: a call \<open>self.m(...)\<close> runs the \<open>def m\<close> of
  the first class, in the method resolution order of the class of \<open>self\<close>, whose body
  has one. \<open>defined_in\<close> lists the \<open>def\<close>s of each class body (\<open>__init__\<close> apart,
  which only stores \<open>run\<close>).
\<close>

datatype method_name =
    M_set_hostname | M_create_route | M_device_up | M_device_down | M_device_name
  | M_device_show | M_get_mac | M_get_ifindex | M_device_ns | M_device_flush
  | M_device_mac | M_delete_device | M_delete_tc | M_checksums_off | M_create_address
  | M_delete_address | M_create_veth | M_create_gretap | M_create_bridge
  | M_delete_bridge | M_create_interface | M_delete_interface | M_existing_bridges
  | M_disable_mac_learning

fun defined_in :: "client_class \<Rightarrow> method_name list" where
  "defined_in LinuxNetClient =
     [M_set_hostname, M_create_route, M_device_up, M_device_down, M_device_name,
      M_device_show, M_get_mac, M_get_ifindex, M_device_ns, M_device_flush,
      M_device_mac, M_delete_device, M_delete_tc, M_checksums_off, M_create_address,
      M_delete_address, M_create_veth, M_create_gretap, M_create_bridge,
      M_delete_bridge, M_create_interface, M_delete_interface, M_existing_bridges,
      M_disable_mac_learning]"
| "defined_in OvsNetClient =
     [M_create_bridge, M_delete_bridge, M_create_interface, M_delete_interface,
      M_existing_bridges, M_disable_mac_learning]"

fun mro :: "client_class \<Rightarrow> client_class list" where
  "mro LinuxNetClient = [LinuxNetClient]"
| "mro OvsNetClient = [OvsNetClient, LinuxNetClient]"

definition resolve :: "client_class \<Rightarrow> method_name \<Rightarrow> client_class option" where
  "resolve c m = List.find (\<lambda>d. m \<in> set (defined_in d)) (mro c)"

subsection \<open>Methods defined by LinuxNetClient only\<close>

text \<open>
  For each method, the body as \<open>LinuxNetClient\<close> writes it, then the call
  \<open>self.m(...)\<close>, which looks the method up in the class of \<open>self\<close>.
\<close>

definition LinuxNetClient_set_hostname :: "net_client \<Rightarrow> string \<Rightarrow> unit prog" where
  "LinuxNetClient_set_hostname self name = discard (call_run self (''hostname '' @ name))"

definition set_hostname :: "net_client \<Rightarrow> string \<Rightarrow> unit prog" where
  "set_hostname self name =
     (if resolve (cls self) M_set_hostname = Some LinuxNetClient
      then LinuxNetClient_set_hostname self name
      else raise_prog AttributeError)"

definition LinuxNetClient_create_route :: "constants \<Rightarrow> net_client \<Rightarrow> string \<Rightarrow> string \<Rightarrow> unit prog" where
  "LinuxNetClient_create_route K self route device =
     discard (call_run self (IP_BIN K @ '' route add '' @ route @ '' dev '' @ device))"

definition create_route ::
  "constants \<Rightarrow> net_client \<Rightarrow> string \<Rightarrow> string \<Rightarrow> unit prog" where
  "create_route K self route device =
     (if resolve (cls self) M_create_route = Some LinuxNetClient
      then LinuxNetClient_create_route K self route device
      else raise_prog AttributeError)"

definition LinuxNetClient_device_up :: "constants \<Rightarrow> net_client \<Rightarrow> string \<Rightarrow> unit prog" where
  "LinuxNetClient_device_up K self device =
     discard (call_run self (IP_BIN K @ '' link set '' @ device @ '' up''))"

definition device_up ::
  "constants \<Rightarrow> net_client \<Rightarrow> string \<Rightarrow> unit prog" where
  "device_up K self device =
     (if resolve (cls self) M_device_up = Some LinuxNetClient
      then LinuxNetClient_device_up K self device
      else raise_prog AttributeError)"

definition LinuxNetClient_device_down :: "constants \<Rightarrow> net_client \<Rightarrow> string \<Rightarrow> unit prog" where
  "LinuxNetClient_device_down K self device =
     discard (call_run self (IP_BIN K @ '' link set '' @ device @ '' down''))"

definition device_down ::
  "constants \<Rightarrow> net_client \<Rightarrow> string \<Rightarrow> unit prog" where
  "device_down K self device =
     (if resolve (cls self) M_device_down = Some LinuxNetClient
      then LinuxNetClient_device_down K self device
      else raise_prog AttributeError)"

definition LinuxNetClient_device_name :: "constants \<Rightarrow> net_client \<Rightarrow> string \<Rightarrow> string \<Rightarrow> unit prog" where
  "LinuxNetClient_device_name K self device name =
     discard (call_run self (IP_BIN K @ '' link set '' @ device @ '' name '' @ name))"

definition device_name ::
  "constants \<Rightarrow> net_client \<Rightarrow> string \<Rightarrow> string \<Rightarrow> unit prog" where
  "device_name K self device name =
     (if resolve (cls self) M_device_name = Some LinuxNetClient
      then LinuxNetClient_device_name K self device name
      else raise_prog AttributeError)"

definition LinuxNetClient_device_show :: "constants \<Rightarrow> net_client \<Rightarrow> string \<Rightarrow> string prog" where
  "LinuxNetClient_device_show K self device = call_run self (IP_BIN K @ '' link show '' @ device)"

definition device_show ::
  "constants \<Rightarrow> net_client \<Rightarrow> string \<Rightarrow> string prog" where
  "device_show K self device =
     (if resolve (cls self) M_device_show = Some LinuxNetClient
      then LinuxNetClient_device_show K self device
      else raise_prog AttributeError)"

definition LinuxNetClient_get_mac :: "net_client \<Rightarrow> string \<Rightarrow> string prog" where
  "LinuxNetClient_get_mac self device = call_run self (''cat /sys/class/net/'' @ device @ ''/address'')"

definition get_mac :: "net_client \<Rightarrow> string \<Rightarrow> string prog" where
  "get_mac self device =
     (if resolve (cls self) M_get_mac = Some LinuxNetClient
      then LinuxNetClient_get_mac self device
      else raise_prog AttributeError)"

definition LinuxNetClient_get_ifindex :: "net_client \<Rightarrow> string \<Rightarrow> string prog" where
  "LinuxNetClient_get_ifindex self device = call_run self (''cat /sys/class/net/'' @ device @ ''/ifindex'')"

definition get_ifindex :: "net_client \<Rightarrow> string \<Rightarrow> string prog" where
  "get_ifindex self device =
     (if resolve (cls self) M_get_ifindex = Some LinuxNetClient
      then LinuxNetClient_get_ifindex self device
      else raise_prog AttributeError)"

definition LinuxNetClient_device_ns :: "constants \<Rightarrow> net_client \<Rightarrow> string \<Rightarrow> string \<Rightarrow> unit prog" where
  "LinuxNetClient_device_ns K self device namespace =
     discard (call_run self (IP_BIN K @ '' link set '' @ device @ '' netns '' @ namespace))"

definition device_ns ::
  "constants \<Rightarrow> net_client \<Rightarrow> string \<Rightarrow> string \<Rightarrow> unit prog" where
  "device_ns K self device namespace =
     (if resolve (cls self) M_device_ns = Some LinuxNetClient
      then LinuxNetClient_device_ns K self device namespace
      else raise_prog AttributeError)"

definition LinuxNetClient_device_flush :: "constants \<Rightarrow> net_client \<Rightarrow> string \<Rightarrow> unit prog" where
  "LinuxNetClient_device_flush K self device =
     discard (call_run_shell self
       (''[ -e /sys/class/net/'' @ device @ '' ] && '' @ IP_BIN K
          @ '' -6 address flush dev '' @ device @ '' || true'')
       True)"

definition device_flush ::
  "constants \<Rightarrow> net_client \<Rightarrow> string \<Rightarrow> unit prog" where
  "device_flush K self device =
     (if resolve (cls self) M_device_flush = Some LinuxNetClient
      then LinuxNetClient_device_flush K self device
      else raise_prog AttributeError)"

definition LinuxNetClient_device_mac :: "constants \<Rightarrow> net_client \<Rightarrow> string \<Rightarrow> string \<Rightarrow> unit prog" where
  "LinuxNetClient_device_mac K self device mac =
     discard (call_run self (IP_BIN K @ '' link set dev '' @ device @ '' address '' @ mac))"

definition device_mac ::
  "constants \<Rightarrow> net_client \<Rightarrow> string \<Rightarrow> string \<Rightarrow> unit prog" where
  "device_mac K self device mac =
     (if resolve (cls self) M_device_mac = Some LinuxNetClient
      then LinuxNetClient_device_mac K self device mac
      else raise_prog AttributeError)"

definition LinuxNetClient_delete_device :: "constants \<Rightarrow> net_client \<Rightarrow> string \<Rightarrow> unit prog" where
  "LinuxNetClient_delete_device K self device =
     discard (call_run self (IP_BIN K @ '' link delete '' @ device))"

definition delete_device ::
  "constants \<Rightarrow> net_client \<Rightarrow> string \<Rightarrow> unit prog" where
  "delete_device K self device =
     (if resolve (cls self) M_delete_device = Some LinuxNetClient
      then LinuxNetClient_delete_device K self device
      else raise_prog AttributeError)"

definition LinuxNetClient_delete_tc :: "constants \<Rightarrow> net_client \<Rightarrow> string \<Rightarrow> unit prog" where
  "LinuxNetClient_delete_tc K self device =
     discard (call_run self (TC_BIN K @ '' qdisc delete dev '' @ device @ '' root''))"

definition delete_tc ::
  "constants \<Rightarrow> net_client \<Rightarrow> string \<Rightarrow> unit prog" where
  "delete_tc K self device =
     (if resolve (cls self) M_delete_tc = Some LinuxNetClient
      then LinuxNetClient_delete_tc K self device
      else raise_prog AttributeError)"

definition LinuxNetClient_checksums_off :: "constants \<Rightarrow> net_client \<Rightarrow> string \<Rightarrow> unit prog" where
  "LinuxNetClient_checksums_off K self interface_name =
     discard (call_run self (ETHTOOL_BIN K @ '' -K '' @ interface_name @ '' rx off tx off''))"

definition checksums_off ::
  "constants \<Rightarrow> net_client \<Rightarrow> string \<Rightarrow> unit prog" where
  "checksums_off K self interface_name =
     (if resolve (cls self) M_checksums_off = Some LinuxNetClient
      then LinuxNetClient_checksums_off K self interface_name
      else raise_prog AttributeError)"

definition LinuxNetClient_create_address ::
  "constants \<Rightarrow> net_client \<Rightarrow> string \<Rightarrow> string \<Rightarrow> string option \<Rightarrow> unit prog" where
  "LinuxNetClient_create_address K self device address broadcast =
     (case broadcast of
        Some b \<Rightarrow>
          discard (call_run self
            (IP_BIN K @ '' address add '' @ address @ '' broadcast '' @ b @ '' dev '' @ device))
      | None \<Rightarrow>
          discard (call_run self (IP_BIN K @ '' address add '' @ address @ '' dev '' @ device)))"

definition create_address ::
  "constants \<Rightarrow> net_client \<Rightarrow> string \<Rightarrow> string \<Rightarrow> string option \<Rightarrow> unit prog" where
  "create_address K self device address broadcast =
     (if resolve (cls self) M_create_address = Some LinuxNetClient
      then LinuxNetClient_create_address K self device address broadcast
      else raise_prog AttributeError)"

definition LinuxNetClient_delete_address :: "constants \<Rightarrow> net_client \<Rightarrow> string \<Rightarrow> string \<Rightarrow> unit prog" where
  "LinuxNetClient_delete_address K self device address =
     discard (call_run self (IP_BIN K @ '' address delete '' @ address @ '' dev '' @ device))"

definition delete_address ::
  "constants \<Rightarrow> net_client \<Rightarrow> string \<Rightarrow> string \<Rightarrow> unit prog" where
  "delete_address K self device address =
     (if resolve (cls self) M_delete_address = Some LinuxNetClient
      then LinuxNetClient_delete_address K self device address
      else raise_prog AttributeError)"

definition LinuxNetClient_create_veth :: "constants \<Rightarrow> net_client \<Rightarrow> string \<Rightarrow> string \<Rightarrow> unit prog" where
  "LinuxNetClient_create_veth K self name peer =
     discard (call_run self
       (IP_BIN K @ '' link add name '' @ name @ '' type veth peer name '' @ peer))"

definition create_veth ::
  "constants \<Rightarrow> net_client \<Rightarrow> string \<Rightarrow> string \<Rightarrow> unit prog" where
  "create_veth K self name peer =
     (if resolve (cls self) M_create_veth = Some LinuxNetClient
      then LinuxNetClient_create_veth K self name peer
      else raise_prog AttributeError)"

text \<open>
  \<open>create_gretap\<close> grows the command by one \<open>cmd += ...\<close> per argument that is not
  \<open>None\<close>; \<open>ttl\<close> and \<open>key\<close> are integers.
\<close>

definition LinuxNetClient_create_gretap ::
  "constants \<Rightarrow> net_client \<Rightarrow> string \<Rightarrow> string \<Rightarrow> string option \<Rightarrow> int option \<Rightarrow> int option
     \<Rightarrow> unit prog" where
  "LinuxNetClient_create_gretap K self device address local ttl key =
     (let cmd = IP_BIN K @ '' link add '' @ device @ '' type gretap remote '' @ address;
          cmd = (case local of Some l \<Rightarrow> cmd @ '' local '' @ l | None \<Rightarrow> cmd);
          cmd = (case ttl of Some t \<Rightarrow> cmd @ '' ttl '' @ str_int t | None \<Rightarrow> cmd);
          cmd = (case key of Some k \<Rightarrow> cmd @ '' key '' @ str_int k | None \<Rightarrow> cmd)
      in discard (call_run self cmd))"

definition create_gretap ::
  "constants \<Rightarrow> net_client \<Rightarrow> string \<Rightarrow> string \<Rightarrow> string option \<Rightarrow> int option \<Rightarrow> int option
     \<Rightarrow> unit prog" where
  "create_gretap K self device address local ttl key =
     (if resolve (cls self) M_create_gretap = Some LinuxNetClient
      then LinuxNetClient_create_gretap K self device address local ttl key
      else raise_prog AttributeError)"

subsection \<open>Bridges and interfaces: LinuxNetClient and the OvsNetClient overrides\<close>

definition LinuxNetClient_create_bridge :: "constants \<Rightarrow> net_client \<Rightarrow> string \<Rightarrow> unit prog" where
  "LinuxNetClient_create_bridge K self name =
     block
      [discard (call_run self (IP_BIN K @ '' link add name '' @ name @ '' type bridge'')),
       discard (call_run self (IP_BIN K @ '' link set '' @ name @ '' type bridge stp_state 0'')),
       discard (call_run self (IP_BIN K @ '' link set '' @ name @ '' type bridge forward_delay 0'')),
       discard (call_run self (IP_BIN K @ '' link set '' @ name @ '' type bridge mcast_snooping 0'')),
       device_up K self name]"

definition OvsNetClient_create_bridge :: "constants \<Rightarrow> net_client \<Rightarrow> string \<Rightarrow> unit prog" where
  "OvsNetClient_create_bridge K self name =
     block
      [discard (call_run self (OVS_BIN K @ '' add-br '' @ name)),
       discard (call_run self (OVS_BIN K @ '' set bridge '' @ name @ '' stp_enable=false'')),
       discard (call_run self (OVS_BIN K @ '' set bridge '' @ name @ '' other_config:stp-max-age=6'')),
       discard (call_run self
         (OVS_BIN K @ '' set bridge '' @ name @ '' other_config:stp-forward-delay=4'')),
       device_up K self name]"

definition create_bridge :: "constants \<Rightarrow> net_client \<Rightarrow> string \<Rightarrow> unit prog" where
  "create_bridge K self name =
     (case resolve (cls self) M_create_bridge of
        Some LinuxNetClient \<Rightarrow> LinuxNetClient_create_bridge K self name
      | Some OvsNetClient \<Rightarrow> OvsNetClient_create_bridge K self name
      | None \<Rightarrow> raise_prog AttributeError)"

definition LinuxNetClient_delete_bridge :: "constants \<Rightarrow> net_client \<Rightarrow> string \<Rightarrow> unit prog" where
  "LinuxNetClient_delete_bridge K self name =
     block
      [device_down K self name,
       discard (call_run self (IP_BIN K @ '' link delete '' @ name @ '' type bridge''))]"

definition OvsNetClient_delete_bridge :: "constants \<Rightarrow> net_client \<Rightarrow> string \<Rightarrow> unit prog" where
  "OvsNetClient_delete_bridge K self name =
     block
      [device_down K self name,
       discard (call_run self (OVS_BIN K @ '' del-br '' @ name))]"

definition delete_bridge :: "constants \<Rightarrow> net_client \<Rightarrow> string \<Rightarrow> unit prog" where
  "delete_bridge K self name =
     (case resolve (cls self) M_delete_bridge of
        Some LinuxNetClient \<Rightarrow> LinuxNetClient_delete_bridge K self name
      | Some OvsNetClient \<Rightarrow> OvsNetClient_delete_bridge K self name
      | None \<Rightarrow> raise_prog AttributeError)"

definition LinuxNetClient_create_interface ::
  "constants \<Rightarrow> net_client \<Rightarrow> string \<Rightarrow> string \<Rightarrow> unit prog" where
  "LinuxNetClient_create_interface K self bridge_name interface_name =
     block
      [discard (call_run self
         (IP_BIN K @ '' link set dev '' @ interface_name @ '' master '' @ bridge_name)),
       device_up K self interface_name]"

definition OvsNetClient_create_interface ::
  "constants \<Rightarrow> net_client \<Rightarrow> string \<Rightarrow> string \<Rightarrow> unit prog" where
  "OvsNetClient_create_interface K self bridge_name interface_name =
     block
      [discard (call_run self
         (OVS_BIN K @ '' add-port '' @ bridge_name @ '' '' @ interface_name)),
       device_up K self interface_name]"

definition create_interface :: "constants \<Rightarrow> net_client \<Rightarrow> string \<Rightarrow> string \<Rightarrow> unit prog" where
  "create_interface K self bridge_name interface_name =
     (case resolve (cls self) M_create_interface of
        Some LinuxNetClient \<Rightarrow> LinuxNetClient_create_interface K self bridge_name interface_name
      | Some OvsNetClient \<Rightarrow> OvsNetClient_create_interface K self bridge_name interface_name
      | None \<Rightarrow> raise_prog AttributeError)"

definition LinuxNetClient_delete_interface ::
  "constants \<Rightarrow> net_client \<Rightarrow> string \<Rightarrow> string \<Rightarrow> unit prog" where
  "LinuxNetClient_delete_interface K self bridge_name interface_name =
     discard (call_run self (IP_BIN K @ '' link set dev '' @ interface_name @ '' nomaster''))"

definition OvsNetClient_delete_interface ::
  "constants \<Rightarrow> net_client \<Rightarrow> string \<Rightarrow> string \<Rightarrow> unit prog" where
  "OvsNetClient_delete_interface K self bridge_name interface_name =
     discard (call_run self
       (OVS_BIN K @ '' del-port '' @ bridge_name @ '' '' @ interface_name))"

definition delete_interface :: "constants \<Rightarrow> net_client \<Rightarrow> string \<Rightarrow> string \<Rightarrow> unit prog" where
  "delete_interface K self bridge_name interface_name =
     (case resolve (cls self) M_delete_interface of
        Some LinuxNetClient \<Rightarrow> LinuxNetClient_delete_interface K self bridge_name interface_name
      | Some OvsNetClient \<Rightarrow> OvsNetClient_delete_interface K self bridge_name interface_name
      | None \<Rightarrow> raise_prog AttributeError)"

definition LinuxNetClient_disable_mac_learning ::
  "constants \<Rightarrow> net_client \<Rightarrow> string \<Rightarrow> unit prog" where
  "LinuxNetClient_disable_mac_learning K self name =
     discard (call_run self (IP_BIN K @ '' link set '' @ name @ '' type bridge ageing_time 0''))"

definition OvsNetClient_disable_mac_learning ::
  "constants \<Rightarrow> net_client \<Rightarrow> string \<Rightarrow> unit prog" where
  "OvsNetClient_disable_mac_learning K self name =
     discard (call_run self
       (OVS_BIN K @ '' set bridge '' @ name @ '' other_config:mac-aging-time=0''))"

definition disable_mac_learning :: "constants \<Rightarrow> net_client \<Rightarrow> string \<Rightarrow> unit prog" where
  "disable_mac_learning K self name =
     (case resolve (cls self) M_disable_mac_learning of
        Some LinuxNetClient \<Rightarrow> LinuxNetClient_disable_mac_learning K self name
      | Some OvsNetClient \<Rightarrow> OvsNetClient_disable_mac_learning K self name
      | None \<Rightarrow> raise_prog AttributeError)"

subsection \<open>Strings, lists and JSON values as the bridge queries use them\<close>

text \<open>
  \<open>s.split(sep)\<close> with a separator of one character: the fields between the
  separators, empty ones included, so the result is never empty. A \<open>string\<close> here is
  the UTF-8 text; the two separators used, the dot and the newline, are single bytes that
  occur in no longer sequence, so splitting bytes and splitting code points agree.
\<close>

fun str_split :: "char \<Rightarrow> string \<Rightarrow> string list" where
  "str_split sep [] = [[]]"
| "str_split sep (c # cs) =
     (if c = sep then [] # str_split sep cs
      else (case str_split sep cs of
              f # fs \<Rightarrow> (c # f) # fs
            | [] \<Rightarrow> [[c]]))"

text \<open>\<open>xs[i]\<close> for a constant index \<open>i \<ge> 0\<close>.\<close>

definition item :: "'a list \<Rightarrow> nat \<Rightarrow> error + 'a" where
  "item xs i = (if i < length xs then Inr (xs ! i) else Inl IndexError)"

text \<open>
  What \<open>json.loads\<close> returns. An object is the list of its items in insertion order,
  with distinct keys; no method inspects a number, which is carried as its literal.
\<close>

datatype json =
    JNull
  | JBool bool
  | JNumber string
  | JStr string
  | JArr "json list"
  | JObj "(string \<times> json) list"

text \<open>\<open>for bridge in bridges\<close>: the values the loop visits, or the exception of \<open>iter\<close>.\<close>

fun iterate :: "json \<Rightarrow> error + json list" where
  "iterate (JArr xs) = Inr xs"
| "iterate (JObj kvs) = Inr (map (\<lambda>kv. JStr (fst kv)) kvs)"
| "iterate (JStr s) = Inr (map (\<lambda>c. JStr [c]) s)"
| "iterate JNull = Inl TypeError"
| "iterate (JBool b) = Inl TypeError"
| "iterate (JNumber n) = Inl TypeError"

text \<open>\<open>bridge["ifname"]\<close>: a string key.\<close>

fun subscript :: "json \<Rightarrow> string \<Rightarrow> error + json" where
  "subscript (JObj kvs) k = (case map_of kvs k of Some v \<Rightarrow> Inr v | None \<Rightarrow> Inl KeyError)"
| "subscript (JArr xs) k = Inl TypeError"
| "subscript (JStr s) k = Inl TypeError"
| "subscript JNull k = Inl TypeError"
| "subscript (JBool b) k = Inl TypeError"
| "subscript (JNumber n) k = Inl TypeError"

text \<open>\<open>name.split(".")\<close>: only a string has the method.\<close>

fun json_split :: "json \<Rightarrow> char \<Rightarrow> error + string list" where
  "json_split (JStr s) sep = Inr (str_split sep s)"
| "json_split (JArr xs) sep = Inl AttributeError"
| "json_split (JObj kvs) sep = Inl AttributeError"
| "json_split JNull sep = Inl AttributeError"
| "json_split (JBool b) sep = Inl AttributeError"
| "json_split (JNumber n) sep = Inl AttributeError"

subsection \<open>existing_bridges\<close>

text \<open>
  The loop of \<open>LinuxNetClient.existing_bridges\<close> over the parsed listing. The
  condition \<open>fields[0] == "b" and fields[1] == _id\<close> reads \<open>fields[1]\<close> only when
  the first comparison holds. The parameter \<open>_id\<close> is \<open>node_id\<close> here and the
  variable \<open>fields\<close> is \<open>flds\<close>.
\<close>

fun linux_bridges_loop :: "string \<Rightarrow> json list \<Rightarrow> error + bool" where
  "linux_bridges_loop node_id [] = Inr False"
| "linux_bridges_loop node_id (bridge # bridges) =
     (case subscript bridge ''ifname'' of
        Inl e \<Rightarrow> Inl e
      | Inr name \<Rightarrow>
          (case json_split name CHR ''.'' of
             Inl e \<Rightarrow> Inl e
           | Inr flds \<Rightarrow>
               if length flds \<noteq> 3 then linux_bridges_loop node_id bridges
               else
                 (case item flds 0 of
                    Inl e \<Rightarrow> Inl e
                  | Inr f0 \<Rightarrow>
                      if f0 = ''b'' then
                        (case item flds 1 of
                           Inl e \<Rightarrow> Inl e
                         | Inr f1 \<Rightarrow>
                             if f1 = node_id then Inr True
                             else linux_bridges_loop node_id bridges)
                      else linux_bridges_loop node_id bridges)))"

text \<open>\<open>json.loads\<close> is the standard library's; the method takes it as \<open>loads\<close>.\<close>

definition LinuxNetClient_existing_bridges ::
  "constants \<Rightarrow> (string \<Rightarrow> error + json) \<Rightarrow> net_client \<Rightarrow> string \<Rightarrow> bool prog" where
  "LinuxNetClient_existing_bridges K loads self node_id =
     bind_prog (call_run self (IP_BIN K @ '' -j link show type bridge'')) (\<lambda>output.
       case loads output of
         Inl e \<Rightarrow> raise_prog e
       | Inr bridges \<Rightarrow>
           (case iterate bridges of
              Inl e \<Rightarrow> raise_prog e
            | Inr bs \<Rightarrow>
                (case linux_bridges_loop node_id bs of
                   Inl e \<Rightarrow> raise_prog e
                 | Inr found \<Rightarrow> return_prog found)))"

text \<open>The loop of \<open>OvsNetClient.existing_bridges\<close> over the lines of the listing.\<close>

fun ovs_bridges_loop :: "string \<Rightarrow> string list \<Rightarrow> error + bool" where
  "ovs_bridges_loop node_id [] = Inr False"
| "ovs_bridges_loop node_id (line # lines) =
     (let flds = str_split CHR ''.'' line in
        case item flds 0 of
          Inl e \<Rightarrow> Inl e
        | Inr f0 \<Rightarrow>
            if f0 = ''b'' then
              (case item flds 1 of
                 Inl e \<Rightarrow> Inl e
               | Inr f1 \<Rightarrow>
                   if f1 = node_id then Inr True
                   else ovs_bridges_loop node_id lines)
            else ovs_bridges_loop node_id lines)"

definition OvsNetClient_existing_bridges ::
  "constants \<Rightarrow> net_client \<Rightarrow> string \<Rightarrow> bool prog" where
  "OvsNetClient_existing_bridges K self node_id =
     bind_prog (call_run self (OVS_BIN K @ '' list-br'')) (\<lambda>output.
       if output \<noteq> [] then
         (case ovs_bridges_loop node_id (str_split (CHR 0x0A) output) of
            Inl e \<Rightarrow> raise_prog e
          | Inr found \<Rightarrow> return_prog found)
       else return_prog False)"

definition existing_bridges ::
  "constants \<Rightarrow> (string \<Rightarrow> error + json) \<Rightarrow> net_client \<Rightarrow> string \<Rightarrow> bool prog" where
  "existing_bridges K loads self node_id =
     (case resolve (cls self) M_existing_bridges of
        Some LinuxNetClient \<Rightarrow> LinuxNetClient_existing_bridges K loads self node_id
      | Some OvsNetClient \<Rightarrow> OvsNetClient_existing_bridges K self node_id
      | None \<Rightarrow> raise_prog AttributeError)"

section \<open>What the claims speak of\<close>

subsection \<open>Issued commands\<close>

text \<open>An invocation that passes the command only.\<close>

definition plain :: "string \<Rightarrow> invocation" where
  "plain cmd = \<lparr>args = cmd, shell = None\<rparr>"

text \<open>The answer of \<open>run\<close> is an output, not an exception.\<close>

fun ok :: "error + 'a \<Rightarrow> bool" where
  "ok (Inr x) = True"
| "ok (Inl e) = False"

text \<open>The invocations a program adds to the trace it starts from.\<close>

definition issued_by :: "'a prog \<Rightarrow> trace \<Rightarrow> trace" where
  "issued_by p tr = drop (length tr) (snd (p tr))"

text \<open>
  Issuing a list of commands one after the other: the first failure is raised at once,
  nothing is issued after it and nothing is undone.
\<close>

fun run_all :: "net_client \<Rightarrow> string list \<Rightarrow> unit prog" where
  "run_all self [] tr = (Inr (), tr)"
| "run_all self (c # cs) tr =
     (case run self tr (plain c) of
        Inl e \<Rightarrow> (Inl e, tr @ [plain c])
      | Inr out \<Rightarrow> run_all self cs (tr @ [plain c]))"

text \<open>The three operations that issue more than one command, and their commands in order.\<close>

datatype compound =
    Create_bridge string
  | Delete_bridge string
  | Create_interface string string

fun perform :: "constants \<Rightarrow> net_client \<Rightarrow> compound \<Rightarrow> unit prog" where
  "perform K self (Create_bridge name) = create_bridge K self name"
| "perform K self (Delete_bridge name) = delete_bridge K self name"
| "perform K self (Create_interface bridge_name interface_name) =
     create_interface K self bridge_name interface_name"

fun steps :: "constants \<Rightarrow> client_class \<Rightarrow> compound \<Rightarrow> string list" where
  "steps K LinuxNetClient (Create_bridge name) =
     [IP_BIN K @ '' link add name '' @ name @ '' type bridge'',
      IP_BIN K @ '' link set '' @ name @ '' type bridge stp_state 0'',
      IP_BIN K @ '' link set '' @ name @ '' type bridge forward_delay 0'',
      IP_BIN K @ '' link set '' @ name @ '' type bridge mcast_snooping 0'',
      IP_BIN K @ '' link set '' @ name @ '' up'']"
| "steps K OvsNetClient (Create_bridge name) =
     [OVS_BIN K @ '' add-br '' @ name,
      OVS_BIN K @ '' set bridge '' @ name @ '' stp_enable=false'',
      OVS_BIN K @ '' set bridge '' @ name @ '' other_config:stp-max-age=6'',
      OVS_BIN K @ '' set bridge '' @ name @ '' other_config:stp-forward-delay=4'',
      IP_BIN K @ '' link set '' @ name @ '' up'']"
| "steps K LinuxNetClient (Delete_bridge name) =
     [IP_BIN K @ '' link set '' @ name @ '' down'',
      IP_BIN K @ '' link delete '' @ name @ '' type bridge'']"
| "steps K OvsNetClient (Delete_bridge name) =
     [IP_BIN K @ '' link set '' @ name @ '' down'',
      OVS_BIN K @ '' del-br '' @ name]"
| "steps K LinuxNetClient (Create_interface bridge_name interface_name) =
     [IP_BIN K @ '' link set dev '' @ interface_name @ '' master '' @ bridge_name,
      IP_BIN K @ '' link set '' @ interface_name @ '' up'']"
| "steps K OvsNetClient (Create_interface bridge_name interface_name) =
     [OVS_BIN K @ '' add-port '' @ bridge_name @ '' '' @ interface_name,
      IP_BIN K @ '' link set '' @ interface_name @ '' up'']"

subsection \<open>Bridge names\<close>

text \<open>
  A bridge of a node: the name splits on dots into exactly three fields, the first is
  \<open>b\<close> and the second is the node id.
\<close>

definition is_node_bridge :: "string \<Rightarrow> string \<Rightarrow> bool" where
  "is_node_bridge node_id name =
     (case str_split CHR ''.'' name of
        [f0, f1, f2] \<Rightarrow> f0 = ''b'' \<and> f1 = node_id
      | _ \<Rightarrow> False)"





subsection \<open>The modifiers of a GRE tap\<close>

text \<open>
  The optional modifiers in the fixed order local, ttl, key: each is present when its
  argument is given.
\<close>

definition gretap_modifiers ::
  "string option \<Rightarrow> int option \<Rightarrow> int option \<Rightarrow> (string \<times> string) list" where
  "gretap_modifiers local ttl key =
     List.map_filter id
       [map_option (\<lambda>l. (''local'', l)) local,
        map_option (\<lambda>t. (''ttl'', str_int t)) ttl,
        map_option (\<lambda>k. (''key'', str_int k)) key]"

definition clause :: "string \<times> string \<Rightarrow> string" where
  "clause kv = '' '' @ fst kv @ '' '' @ snd kv"

subsection \<open>The shell's and-or lists\<close>

text \<open>
  The command of \<open>device_flush\<close> is run by a shell. In the shell's grammar \<open>&&\<close> and
  \<open>||\<close> have the same precedence and associate to the left; the right operand of
  \<open>&&\<close> runs when the left one exits with zero, the right operand of \<open>||\<close> when the
  left one exits with something else, and the list exits as the last command that ran1.
  \<open>sh_exec\<close> gives the exit status and the simple commands that ran1, from the exit
  status of each simple command.
\<close>

datatype sh =
    Simple string
  | And_if sh sh
  | Or_if sh sh

fun sh_text :: "sh \<Rightarrow> string" where
  "sh_text (Simple c) = c"
| "sh_text (And_if a b) = sh_text a @ '' && '' @ sh_text b"
| "sh_text (Or_if a b) = sh_text a @ '' || '' @ sh_text b"

fun sh_exec :: "(string \<Rightarrow> nat) \<Rightarrow> sh \<Rightarrow> nat \<times> string list" where
  "sh_exec st (Simple c) = (st c, [c])"
| "sh_exec st (And_if a b) =
     (case sh_exec st a of
        (0, ran1) \<Rightarrow> (case sh_exec st b of (s, ran2) \<Rightarrow> (s, ran1 @ ran2))
      | (Suc n, ran1) \<Rightarrow> (Suc n, ran1))"
| "sh_exec st (Or_if a b) =
     (case sh_exec st a of
        (0, ran1) \<Rightarrow> (0, ran1)
      | (Suc n, ran1) \<Rightarrow> (case sh_exec st b of (s, ran2) \<Rightarrow> (s, ran1 @ ran2)))"

definition flush_script :: "constants \<Rightarrow> string \<Rightarrow> sh" where
  "flush_script K device =
     Or_if
       (And_if (Simple (''[ -e /sys/class/net/'' @ device @ '' ]''))
               (Simple (IP_BIN K @ '' -6 address flush dev '' @ device)))
       (Simple ''true'')"

subsection \<open>Concrete inputs\<close>

definition host_constants :: constants where
  "host_constants =
     \<lparr>IP_BIN = ''/sbin/ip'', OVS_BIN = ''/usr/bin/ovs-vsctl'',
      TC_BIN = ''/sbin/tc'', ETHTOOL_BIN = ''/sbin/ethtool''\<rparr>"

text \<open>A host on which every command succeeds and prints \<open>out\<close>.\<close>

definition answers :: "string \<Rightarrow> runner" where
  "answers out tr c = Inr out"

text \<open>A host on which the commands of \<open>bad\<close> exit with 1 and the others print nothing.\<close>

definition fails_on :: "string list \<Rightarrow> runner" where
  "fails_on bad tr c =
     (if args c \<in> set bad then Inl (CommandError 1 []) else Inr [])"

text \<open>The exit statuses on a host without the device: only \<open>true\<close> succeeds.\<close>

definition absent_device :: "string \<Rightarrow> nat" where
  "absent_device c = (if c = ''true'' then 0 else 1)"

text \<open>A parser that knows one document.\<close>

definition loads_as :: "json \<Rightarrow> string \<Rightarrow> error + json" where
  "loads_as j output = Inr j"

section \<open>Method lookup and sequences of commands\<close>

lemma resolve_LinuxNetClient: "resolve LinuxNetClient m = Some LinuxNetClient"
  by (cases m) (simp_all add: resolve_def)

lemma resolve_OvsNetClient:
  "resolve OvsNetClient m =
     (if m \<in> set (defined_in OvsNetClient) then Some OvsNetClient else Some LinuxNetClient)"
  by (cases m) (simp_all add: resolve_def)

lemma cls_get_net_client: "cls (get_net_client use_ovs r) = (if use_ovs then OvsNetClient else LinuxNetClient)"
  by (simp add: get_net_client_def)

lemma run_get_net_client: "run (get_net_client use_ovs r) = r"
  by (simp add: get_net_client_def)

lemma discard_call_run:
  "discard (call_run self c) tr =
     (case run self tr (plain c) of
        Inl e \<Rightarrow> (Inl e, tr @ [plain c])
      | Inr out \<Rightarrow> (Inr (), tr @ [plain c]))"
  by (simp add: discard_def bind_prog_def call_run_def return_prog_def plain_def split: sum.splits)

lemma run_all_single: "discard (call_run self c) = run_all self [c]"
  by (rule ext) (simp add: discard_call_run split: sum.splits)

lemma bind_run_all: "bind_prog (run_all self cs) (\<lambda>_. run_all self ds) = run_all self (cs @ ds)"
proof (rule ext)
  fix tr
  show "bind_prog (run_all self cs) (\<lambda>_. run_all self ds) tr = run_all self (cs @ ds) tr"
  proof (induction cs arbitrary: tr)
    case Nil
    show ?case by (simp add: bind_prog_def)
  next
    case (Cons c cs)
    show ?case
    proof (cases "run self tr (plain c)")
      case (Inl e)
      then show ?thesis by (simp add: bind_prog_def)
    next
      case (Inr out)
      then show ?thesis using Cons.IH [of "tr @ [plain c]"] by (simp add: bind_prog_def)
    qed
  qed
qed

lemma block_run_all: "block (map (run_all self) css) = run_all self (concat css)"
proof (induction css)
  case Nil
  show ?case by (rule ext) (simp add: return_prog_def)
next
  case (Cons cs css)
  then show ?case by (simp add: bind_run_all)
qed

lemma device_up_run_all:
  "device_up K self device = run_all self [IP_BIN K @ '' link set '' @ device @ '' up'']"
  by (cases "cls self")
     (simp_all add: device_up_def LinuxNetClient_device_up_def resolve_LinuxNetClient
        resolve_OvsNetClient run_all_single)

lemma device_down_run_all:
  "device_down K self device = run_all self [IP_BIN K @ '' link set '' @ device @ '' down'']"
  by (cases "cls self")
     (simp_all add: device_down_def LinuxNetClient_device_down_def resolve_LinuxNetClient
        resolve_OvsNetClient run_all_single)

lemma perform_run_all: "perform K self op = run_all self (steps K (cls self) op)"
proof (cases "cls self")
  case LinuxNetClient
  show ?thesis
  proof (cases op)
    case (Create_bridge name)
    have "LinuxNetClient_create_bridge K self name =
          block (map (run_all self) (map (\<lambda>c. [c]) (steps K LinuxNetClient (Create_bridge name))))"
      by (simp add: LinuxNetClient_create_bridge_def device_up_run_all run_all_single)
    then show ?thesis using LinuxNetClient Create_bridge
      by (simp only: block_run_all perform.simps create_bridge_def resolve_LinuxNetClient) simp
  next
    case (Delete_bridge name)
    have "LinuxNetClient_delete_bridge K self name =
          block (map (run_all self) (map (\<lambda>c. [c]) (steps K LinuxNetClient (Delete_bridge name))))"
      by (simp add: LinuxNetClient_delete_bridge_def device_down_run_all run_all_single)
    then show ?thesis using LinuxNetClient Delete_bridge
      by (simp only: block_run_all perform.simps delete_bridge_def resolve_LinuxNetClient) simp
  next
    case (Create_interface b i)
    have "LinuxNetClient_create_interface K self b i =
          block (map (run_all self) (map (\<lambda>c. [c]) (steps K LinuxNetClient (Create_interface b i))))"
      by (simp add: LinuxNetClient_create_interface_def device_up_run_all run_all_single)
    then show ?thesis using LinuxNetClient Create_interface
      by (simp only: block_run_all perform.simps create_interface_def resolve_LinuxNetClient) simp
  qed
next
  case OvsNetClient
  show ?thesis
  proof (cases op)
    case (Create_bridge name)
    have "OvsNetClient_create_bridge K self name =
          block (map (run_all self) (map (\<lambda>c. [c]) (steps K OvsNetClient (Create_bridge name))))"
      by (simp add: OvsNetClient_create_bridge_def device_up_run_all run_all_single)
    then show ?thesis using OvsNetClient Create_bridge
      by (simp only: block_run_all perform.simps create_bridge_def resolve_OvsNetClient) simp
  next
    case (Delete_bridge name)
    have "OvsNetClient_delete_bridge K self name =
          block (map (run_all self) (map (\<lambda>c. [c]) (steps K OvsNetClient (Delete_bridge name))))"
      by (simp add: OvsNetClient_delete_bridge_def device_down_run_all run_all_single)
    then show ?thesis using OvsNetClient Delete_bridge
      by (simp only: block_run_all perform.simps delete_bridge_def resolve_OvsNetClient) simp
  next
    case (Create_interface b i)
    have "OvsNetClient_create_interface K self b i =
          block (map (run_all self) (map (\<lambda>c. [c]) (steps K OvsNetClient (Create_interface b i))))"
      by (simp add: OvsNetClient_create_interface_def device_up_run_all run_all_single)
    then show ?thesis using OvsNetClient Create_interface
      by (simp only: block_run_all perform.simps create_interface_def resolve_OvsNetClient) simp
  qed
qed

lemma run_all_snd: "\<exists>k\<le>length cs. snd (run_all self cs tr) = tr @ map plain (take k cs)"
proof (induction cs arbitrary: tr)
  case Nil
  show ?case by simp
next
  case (Cons c cs)
  show ?case
  proof (cases "run self tr (plain c)")
    case (Inl e)
    have "snd (run_all self (c # cs) tr) = tr @ map plain (take (Suc 0) (c # cs))"
      using Inl by simp
    then show ?thesis by (intro exI [of _ "Suc 0"]) simp
  next
    case (Inr out)
    from Cons.IH [of "tr @ [plain c]"] obtain k where
      k: "k \<le> length cs" "snd (run_all self cs (tr @ [plain c])) = (tr @ [plain c]) @ map plain (take k cs)"
      by blast
    have "snd (run_all self (c # cs) tr) = tr @ map plain (take (Suc k) (c # cs))"
      using Inr k(2) by simp
    then show ?thesis using k(1) by (intro exI [of _ "Suc k"]) simp
  qed
qed

lemma run_all_issued_prefix: "prefix (issued_by (run_all self cs) tr) (map plain cs)"
proof -
  obtain k where "snd (run_all self cs tr) = tr @ map plain (take k cs)"
    using run_all_snd by blast
  then have "issued_by (run_all self cs) tr = take k (map plain cs)"
    by (simp add: issued_by_def take_map)
  then show ?thesis by (simp add: take_is_prefix)
qed

lemma run_all_all_ok:
  "\<forall>i<length cs. ok (run self (tr @ map plain (take i cs)) (plain (cs ! i))) \<Longrightarrow>
   run_all self cs tr = (Inr (), tr @ map plain cs)"
proof (induction cs arbitrary: tr)
  case Nil
  show ?case by simp
next
  case (Cons c cs)
  from Cons.prems have "ok (run self tr (plain c))" by fastforce
  then obtain out where out: "run self tr (plain c) = Inr out"
    by (cases "run self tr (plain c)") simp_all
  have "\<forall>i<length cs. ok (run self ((tr @ [plain c]) @ map plain (take i cs)) (plain (cs ! i)))"
  proof (intro allI impI)
    fix i assume "i < length cs"
    then have "ok (run self (tr @ map plain (take (Suc i) (c # cs))) (plain ((c # cs) ! Suc i)))"
      using Cons.prems by (metis Suc_less_eq length_Cons)
    then show "ok (run self ((tr @ [plain c]) @ map plain (take i cs)) (plain (cs ! i)))"
      by simp
  qed
  from Cons.IH [OF this] show ?case using out by simp
qed

lemma run_all_fails_at:
  "k < length cs \<Longrightarrow>
   \<forall>i<k. ok (run self (tr @ map plain (take i cs)) (plain (cs ! i))) \<Longrightarrow>
   run self (tr @ map plain (take k cs)) (plain (cs ! k)) = Inl e \<Longrightarrow>
   run_all self cs tr = (Inl e, tr @ map plain (take (Suc k) cs))"
proof (induction cs arbitrary: tr k)
  case Nil
  then show ?case by simp
next
  case (Cons c cs)
  show ?case
  proof (cases k)
    case 0
    then show ?thesis using Cons.prems(3) by simp
  next
    case (Suc j)
    from Cons.prems(2) Suc have "ok (run self tr (plain c))" by fastforce
    then obtain out where out: "run self tr (plain c) = Inr out"
      by (cases "run self tr (plain c)") simp_all
    have j: "j < length cs" using Cons.prems(1) Suc by simp
    have oks: "\<forall>i<j. ok (run self ((tr @ [plain c]) @ map plain (take i cs)) (plain (cs ! i)))"
    proof (intro allI impI)
      fix i assume "i < j"
      then have "Suc i < k" using Suc by simp
      with Cons.prems(2)
      have "ok (run self (tr @ map plain (take (Suc i) (c # cs))) (plain ((c # cs) ! Suc i)))"
        by blast
      then show "ok (run self ((tr @ [plain c]) @ map plain (take i cs)) (plain (cs ! i)))"
        by simp
    qed
    have bad: "run self ((tr @ [plain c]) @ map plain (take j cs)) (plain (cs ! j)) = Inl e"
      using Cons.prems(3) Suc by simp
    from Cons.IH [OF j oks bad] show ?thesis using out Suc by simp
  qed
qed

lemma run_all_returns:
  "fst (run_all self cs tr) = Inr () \<Longrightarrow> snd (run_all self cs tr) = tr @ map plain cs"
proof (induction cs arbitrary: tr)
  case Nil
  show ?case by simp
next
  case (Cons c cs)
  then show ?case by (cases "run self tr (plain c)") simp_all
qed

lemma create_bridge_steps:
  "create_bridge K (get_net_client use_ovs r) name =
     run_all (get_net_client use_ovs r)
       (steps K (if use_ovs then OvsNetClient else LinuxNetClient) (Create_bridge name))"
  using perform_run_all [of K "get_net_client use_ovs r" "Create_bridge name"]
  by (simp add: cls_get_net_client)

lemma delete_bridge_steps:
  "delete_bridge K (get_net_client use_ovs r) name =
     run_all (get_net_client use_ovs r)
       (steps K (if use_ovs then OvsNetClient else LinuxNetClient) (Delete_bridge name))"
  using perform_run_all [of K "get_net_client use_ovs r" "Delete_bridge name"]
  by (simp add: cls_get_net_client)

lemma create_interface_steps:
  "create_interface K (get_net_client use_ovs r) b i =
     run_all (get_net_client use_ovs r)
       (steps K (if use_ovs then OvsNetClient else LinuxNetClient) (Create_interface b i))"
  using perform_run_all [of K "get_net_client use_ovs r" "Create_interface b i"]
  by (simp add: cls_get_net_client)

lemma plain_eq_iff: "plain a = plain b \<longleftrightarrow> a = b"
  by (simp add: plain_def)

lemma run_all_two_issued:
  "ok (run self tr (plain c1)) \<Longrightarrow> issued_by (run_all self [c1, c2]) tr = map plain [c1, c2]"
  by (cases "run self tr (plain c1)"; cases "run self (tr @ [plain c1]) (plain c2)")
     (simp_all add: issued_by_def)

lemma discard_call_run_issued: "issued_by (discard (call_run self c)) tr = [plain c]"
  by (cases "run self tr (plain c)") (simp_all add: issued_by_def discard_call_run)

lemma first_word:
  assumes "CHR '' '' \<notin> set a"
  shows "takeWhile (\<lambda>c. c \<noteq> CHR '' '') (a @ CHR '' '' # x) = a"
  using assms by (induction a) auto

lemma first_word_differs:
  assumes "CHR '' '' \<notin> set a" and "CHR '' '' \<notin> set b" and "a \<noteq> b"
  shows "a @ CHR '' '' # x \<noteq> b @ CHR '' '' # y"
proof
  assume "a @ CHR '' '' # x = b @ CHR '' '' # y"
  then have "takeWhile (\<lambda>c. c \<noteq> CHR '' '') (a @ CHR '' '' # x)
           = takeWhile (\<lambda>c. c \<noteq> CHR '' '') (b @ CHR '' '' # y)"
    by simp
  then have "a = b" using first_word [OF assms(1)] first_word [OF assms(2)] by simp
  with assms(3) show False by simp
qed

lemma nomaster_not_down:
  "IP_BIN K @ '' link set dev '' @ i @ '' nomaster'' \<noteq> IP_BIN K @ '' link set '' @ d @ '' down''"
proof
  assume "IP_BIN K @ '' link set dev '' @ i @ '' nomaster'' = IP_BIN K @ '' link set '' @ d @ '' down''"
  then have "last (IP_BIN K @ '' link set dev '' @ i @ '' nomaster'')
           = last (IP_BIN K @ '' link set '' @ d @ '' down'')"
    by (rule arg_cong)
  then show False by simp
qed

lemma del_port_not_down:
  assumes "CHR '' '' \<notin> set (IP_BIN K)" and "CHR '' '' \<notin> set (OVS_BIN K)"
    and "IP_BIN K \<noteq> OVS_BIN K"
  shows "OVS_BIN K @ '' del-port '' @ b @ '' '' @ i \<noteq> IP_BIN K @ '' link set '' @ d @ '' down''"
  using first_word_differs [OF assms(2) assms(1), of "''del-port '' @ b @ '' '' @ i"
      "''link set '' @ d @ '' down''"] assms(3)
  by simp

lemma inherited_call:
  "resolve (cls (get_net_client use_ovs r)) m = Some LinuxNetClient
     \<longleftrightarrow> (use_ovs \<longrightarrow> m \<notin> set (defined_in OvsNetClient))"
  by (simp add: cls_get_net_client resolve_LinuxNetClient resolve_OvsNetClient)

lemma discard_call_run_client:
  "discard (call_run (get_net_client use_ovs r) c) tr =
     (case r tr (plain c) of
        Inl e \<Rightarrow> (Inl e, tr @ [plain c])
      | Inr out \<Rightarrow> (Inr (), tr @ [plain c]))"
  by (simp add: discard_call_run run_get_net_client)

lemma flush_script_text:
  "sh_text (flush_script K device) =
     ''[ -e /sys/class/net/'' @ device @ '' ] && '' @ IP_BIN K
       @ '' -6 address flush dev '' @ device @ '' || true''"
  by (simp add: flush_script_def)

lemma flush_script_status: "st ''true'' = 0 \<Longrightarrow> fst (sh_exec st (flush_script K device)) = 0"
  by (simp add: flush_script_def split: prod.splits nat.splits)

lemma flush_script_absent:
  "st (''[ -e /sys/class/net/'' @ device @ '' ]'') \<noteq> 0 \<Longrightarrow>
   snd (sh_exec st (flush_script K device)) = [''[ -e /sys/class/net/'' @ device @ '' ]'', ''true'']"
  by (simp add: flush_script_def split: prod.splits nat.splits)

lemma flush_script_present:
  "st (''[ -e /sys/class/net/'' @ device @ '' ]'') = 0 \<Longrightarrow>
   take 2 (snd (sh_exec st (flush_script K device)))
     = [''[ -e /sys/class/net/'' @ device @ '' ]'', IP_BIN K @ '' -6 address flush dev '' @ device]"
  by (simp add: flush_script_def split: prod.splits nat.splits)

subsection \<open>The loops of existing_bridges\<close>









lemma existing_bridges_ovs:
  "existing_bridges K loads (get_net_client True r) node_id =
     OvsNetClient_existing_bridges K (get_net_client True r) node_id"
  by (simp add: existing_bridges_def cls_get_net_client resolve_OvsNetClient)

lemma existing_bridges_linux:
  "existing_bridges K loads (get_net_client False r) node_id =
     LinuxNetClient_existing_bridges K loads (get_net_client False r) node_id"
  by (simp add: existing_bridges_def cls_get_net_client resolve_LinuxNetClient)

section \<open>Order of the commands\<close>

text \<open>
  C2. \<open>create_bridge(name)\<close> issues its commands in this order: the command that
  creates the bridge, then the three that set its properties (kernel bridge: STP off,
  forwarding delay zero, multicast snooping off; OVS: STP off and the two
  \<open>other_config\<close> keys, which the code names \<open>stp-max-age\<close> and
  \<open>stp-forward-delay\<close>), and the command that brings the bridge up last. Whatever
  \<open>run\<close> answers, the commands issued are an initial part of this list; when none of
  them fails, all five are issued and the call returns; and a call that returns has
  issued all five.
\<close>

theorem create_bridge_order:
  assumes "cmds =
     (if use_ovs then
        [OVS_BIN K @ '' add-br '' @ name,
         OVS_BIN K @ '' set bridge '' @ name @ '' stp_enable=false'',
         OVS_BIN K @ '' set bridge '' @ name @ '' other_config:stp-max-age=6'',
         OVS_BIN K @ '' set bridge '' @ name @ '' other_config:stp-forward-delay=4'',
         IP_BIN K @ '' link set '' @ name @ '' up'']
      else
        [IP_BIN K @ '' link add name '' @ name @ '' type bridge'',
         IP_BIN K @ '' link set '' @ name @ '' type bridge stp_state 0'',
         IP_BIN K @ '' link set '' @ name @ '' type bridge forward_delay 0'',
         IP_BIN K @ '' link set '' @ name @ '' type bridge mcast_snooping 0'',
         IP_BIN K @ '' link set '' @ name @ '' up''])"
  shows "prefix (issued_by (create_bridge K (get_net_client use_ovs r) name) tr) (map plain cmds)
    \<and> ((\<forall>i<length cmds. ok (r (tr @ map plain (take i cmds)) (plain (cmds ! i)))) \<longrightarrow>
         create_bridge K (get_net_client use_ovs r) name tr = (Inr (), tr @ map plain cmds))
    \<and> (fst (create_bridge K (get_net_client use_ovs r) name tr) = Inr () \<longrightarrow>
         issued_by (create_bridge K (get_net_client use_ovs r) name) tr = map plain cmds)"
proof -
  have cmds: "cmds = steps K (if use_ovs then OvsNetClient else LinuxNetClient) (Create_bridge name)"
    using assms by simp
  have eq: "create_bridge K (get_net_client use_ovs r) name = run_all (get_net_client use_ovs r) cmds"
    unfolding cmds by (rule create_bridge_steps)
  have 1: "prefix (issued_by (create_bridge K (get_net_client use_ovs r) name) tr) (map plain cmds)"
    unfolding eq by (rule run_all_issued_prefix)
  have 2: "(\<forall>i<length cmds. ok (r (tr @ map plain (take i cmds)) (plain (cmds ! i)))) \<longrightarrow>
         create_bridge K (get_net_client use_ovs r) name tr = (Inr (), tr @ map plain cmds)"
    unfolding eq
    using run_all_all_ok [of cmds "get_net_client use_ovs r" tr]
    by (simp add: run_get_net_client)
  have 3: "fst (create_bridge K (get_net_client use_ovs r) name tr) = Inr () \<longrightarrow>
         issued_by (create_bridge K (get_net_client use_ovs r) name) tr = map plain cmds"
    unfolding eq
    using run_all_returns [of "get_net_client use_ovs r" cmds tr]
    by (simp add: issued_by_def)
  from 1 2 3 show ?thesis by blast
qed

theorem create_bridge_order_witness:
  "create_bridge host_constants (get_net_client True (answers [])) ''b.5.0'' []
     = (Inr (), map plain
         [''/usr/bin/ovs-vsctl add-br b.5.0'',
          ''/usr/bin/ovs-vsctl set bridge b.5.0 stp_enable=false'',
          ''/usr/bin/ovs-vsctl set bridge b.5.0 other_config:stp-max-age=6'',
          ''/usr/bin/ovs-vsctl set bridge b.5.0 other_config:stp-forward-delay=4'',
          ''/sbin/ip link set b.5.0 up''])
   \<and> issued_by (create_bridge host_constants (get_net_client False (answers [])) ''b.5.0'') []
     = map plain
         [''/sbin/ip link add name b.5.0 type bridge'',
          ''/sbin/ip link set b.5.0 type bridge stp_state 0'',
          ''/sbin/ip link set b.5.0 type bridge forward_delay 0'',
          ''/sbin/ip link set b.5.0 type bridge mcast_snooping 0'',
          ''/sbin/ip link set b.5.0 up'']"
  using create_bridge_order [of _ True host_constants "''b.5.0''" "answers []" "[]", OF refl]
    create_bridge_order [of _ False host_constants "''b.5.0''" "answers []" "[]", OF refl]
  by (simp add: host_constants_def answers_def)

text \<open>
  C3. \<open>delete_bridge(name)\<close> issues two commands, for either client: the one that
  brings the bridge down, then the one that deletes it. The commands issued are an
  initial part of this list; both are issued as soon as the first one succeeds; and the
  call returns when both succeed.
\<close>

theorem delete_bridge_order:
  assumes "cmds =
     [IP_BIN K @ '' link set '' @ name @ '' down'',
      if use_ovs then OVS_BIN K @ '' del-br '' @ name
      else IP_BIN K @ '' link delete '' @ name @ '' type bridge'']"
  shows "prefix (issued_by (delete_bridge K (get_net_client use_ovs r) name) tr) (map plain cmds)
    \<and> (ok (r tr (plain (cmds ! 0))) \<longrightarrow>
         issued_by (delete_bridge K (get_net_client use_ovs r) name) tr = map plain cmds)
    \<and> ((\<forall>i<length cmds. ok (r (tr @ map plain (take i cmds)) (plain (cmds ! i)))) \<longrightarrow>
         delete_bridge K (get_net_client use_ovs r) name tr = (Inr (), tr @ map plain cmds))"
proof -
  have cmds: "cmds = steps K (if use_ovs then OvsNetClient else LinuxNetClient) (Delete_bridge name)"
    using assms by simp
  have eq: "delete_bridge K (get_net_client use_ovs r) name = run_all (get_net_client use_ovs r) cmds"
    unfolding cmds by (rule delete_bridge_steps)
  have 1: "prefix (issued_by (delete_bridge K (get_net_client use_ovs r) name) tr) (map plain cmds)"
    unfolding eq by (rule run_all_issued_prefix)
  have 2: "ok (r tr (plain (cmds ! 0))) \<longrightarrow>
         issued_by (delete_bridge K (get_net_client use_ovs r) name) tr = map plain cmds"
    unfolding eq
    using run_all_two_issued [of "get_net_client use_ovs r" tr "cmds ! 0" "cmds ! 1"] assms
    by (simp add: run_get_net_client)
  have 3: "(\<forall>i<length cmds. ok (r (tr @ map plain (take i cmds)) (plain (cmds ! i)))) \<longrightarrow>
         delete_bridge K (get_net_client use_ovs r) name tr = (Inr (), tr @ map plain cmds)"
    unfolding eq
    using run_all_all_ok [of cmds "get_net_client use_ovs r" tr]
    by (simp add: run_get_net_client)
  from 1 2 3 show ?thesis by blast
qed

theorem delete_bridge_order_witness:
  "delete_bridge host_constants (get_net_client False (answers [])) ''b.5.0'' []
     = (Inr (), map plain [''/sbin/ip link set b.5.0 down'', ''/sbin/ip link delete b.5.0 type bridge''])
   \<and> issued_by (delete_bridge host_constants
         (get_net_client True (fails_on [''/usr/bin/ovs-vsctl del-br b.5.0''])) ''b.5.0'') []
     = map plain [''/sbin/ip link set b.5.0 down'', ''/usr/bin/ovs-vsctl del-br b.5.0'']"
  using delete_bridge_order [of _ host_constants "''b.5.0''" False "answers []" "[]", OF refl]
    delete_bridge_order [of _ host_constants "''b.5.0''" True
      "fails_on [''/usr/bin/ovs-vsctl del-br b.5.0'']" "[]", OF refl]
  by (simp add: host_constants_def answers_def fails_on_def plain_def)

text \<open>
  C4. \<open>create_interface(bridge, interface)\<close> issues the attach command and then the
  command that brings the interface up, for either client. \<open>delete_interface\<close>
  issues the detach command and nothing else, whatever \<open>run\<close> answers; in particular
  it issues no command that brings a device down. For the OVS client the last point
  needs the paths of the two binaries to be different words.
\<close>

theorem interface_attach_detach:
  assumes "attach =
     (if use_ovs then OVS_BIN K @ '' add-port '' @ bridge_name @ '' '' @ interface_name
      else IP_BIN K @ '' link set dev '' @ interface_name @ '' master '' @ bridge_name)"
    and "detach =
     (if use_ovs then OVS_BIN K @ '' del-port '' @ bridge_name @ '' '' @ interface_name
      else IP_BIN K @ '' link set dev '' @ interface_name @ '' nomaster'')"
    and "up = IP_BIN K @ '' link set '' @ interface_name @ '' up''"
    and "use_ovs \<longrightarrow>
           CHR '' '' \<notin> set (IP_BIN K) \<and> CHR '' '' \<notin> set (OVS_BIN K) \<and> IP_BIN K \<noteq> OVS_BIN K"
  shows "prefix
       (issued_by (create_interface K (get_net_client use_ovs r) bridge_name interface_name) tr)
       (map plain [attach, up])
    \<and> (ok (r tr (plain attach)) \<longrightarrow>
         issued_by (create_interface K (get_net_client use_ovs r) bridge_name interface_name) tr
           = map plain [attach, up])
    \<and> issued_by (delete_interface K (get_net_client use_ovs r) bridge_name interface_name) tr
         = [plain detach]
    \<and> (\<forall>device. plain (IP_BIN K @ '' link set '' @ device @ '' down'') \<notin>
          set (issued_by
                (delete_interface K (get_net_client use_ovs r) bridge_name interface_name) tr))"
proof -
  let ?c = "get_net_client use_ovs r"
  have cmds: "[attach, up] =
      steps K (if use_ovs then OvsNetClient else LinuxNetClient)
        (Create_interface bridge_name interface_name)"
    using assms(1,3) by simp
  have eq: "create_interface K ?c bridge_name interface_name = run_all ?c [attach, up]"
    unfolding cmds by (rule create_interface_steps)
  have 1: "prefix (issued_by (create_interface K ?c bridge_name interface_name) tr)
             (map plain [attach, up])"
    unfolding eq by (rule run_all_issued_prefix)
  have 2: "ok (r tr (plain attach)) \<longrightarrow>
         issued_by (create_interface K ?c bridge_name interface_name) tr = map plain [attach, up]"
    unfolding eq using run_all_two_issued [of ?c tr attach up]
    by (simp add: run_get_net_client)
  have del: "delete_interface K ?c bridge_name interface_name = discard (call_run ?c detach)"
    using assms(2)
    by (simp add: delete_interface_def cls_get_net_client resolve_LinuxNetClient
          resolve_OvsNetClient LinuxNetClient_delete_interface_def
          OvsNetClient_delete_interface_def)
  have 3: "issued_by (delete_interface K ?c bridge_name interface_name) tr = [plain detach]"
    unfolding del by (rule discard_call_run_issued)
  have 4: "\<forall>device. plain (IP_BIN K @ '' link set '' @ device @ '' down'') \<notin>
          set (issued_by (delete_interface K ?c bridge_name interface_name) tr)"
  proof
    fix device
    have "detach \<noteq> IP_BIN K @ '' link set '' @ device @ '' down''"
    proof (cases use_ovs)
      case True
      then show ?thesis using assms(2,4) del_port_not_down [of K bridge_name interface_name device]
        by simp
    next
      case False
      then show ?thesis using assms(2) nomaster_not_down [of K interface_name device]
        by simp
    qed
    then show "plain (IP_BIN K @ '' link set '' @ device @ '' down'') \<notin>
          set (issued_by (delete_interface K ?c bridge_name interface_name) tr)"
      unfolding 3 by (simp add: plain_eq_iff)
  qed
  from 1 2 3 4 show ?thesis by blast
qed

theorem interface_attach_detach_witness:
  "issued_by (create_interface host_constants (get_net_client True (answers [])) ''b.5.0'' ''veth0'') []
     = map plain [''/usr/bin/ovs-vsctl add-port b.5.0 veth0'', ''/sbin/ip link set veth0 up'']
   \<and> issued_by (delete_interface host_constants (get_net_client True (answers [])) ''b.5.0'' ''veth0'') []
     = [plain ''/usr/bin/ovs-vsctl del-port b.5.0 veth0'']
   \<and> plain ''/sbin/ip link set veth0 down'' \<notin>
       set (issued_by (delete_interface host_constants (get_net_client True (answers []))
              ''b.5.0'' ''veth0'') [])"
proof -
  have binaries: "True \<longrightarrow> CHR '' '' \<notin> set (IP_BIN host_constants)
      \<and> CHR '' '' \<notin> set (OVS_BIN host_constants) \<and> IP_BIN host_constants \<noteq> OVS_BIN host_constants"
    by (simp add: host_constants_def)
  note w = interface_attach_detach [of _ True host_constants "''b.5.0''" "''veth0''" _ _
      "answers []" "[]", OF refl refl refl binaries]
  from w have a: "issued_by (create_interface host_constants (get_net_client True (answers []))
        ''b.5.0'' ''veth0'') []
     = map plain [''/usr/bin/ovs-vsctl add-port b.5.0 veth0'', ''/sbin/ip link set veth0 up'']"
    by (simp add: host_constants_def answers_def)
  from w have b: "issued_by (delete_interface host_constants (get_net_client True (answers []))
        ''b.5.0'' ''veth0'') []
     = [plain ''/usr/bin/ovs-vsctl del-port b.5.0 veth0'']"
    by (simp add: host_constants_def)
  from w have "\<forall>device. plain (IP_BIN host_constants @ '' link set '' @ device @ '' down'') \<notin>
       set (issued_by (delete_interface host_constants (get_net_client True (answers []))
              ''b.5.0'' ''veth0'') [])"
    by blast
  then have "plain (IP_BIN host_constants @ '' link set '' @ ''veth0'' @ '' down'') \<notin>
       set (issued_by (delete_interface host_constants (get_net_client True (answers []))
              ''b.5.0'' ''veth0'') [])"
    by (rule spec)
  then have c: "plain ''/sbin/ip link set veth0 down'' \<notin>
       set (issued_by (delete_interface host_constants (get_net_client True (answers []))
              ''b.5.0'' ''veth0'') [])"
    by (simp add: host_constants_def)
  from a b c show ?thesis by blast
qed

section \<open>Partial failure\<close>

text \<open>
  C8. No operation is transactional. For each of the operations that issue more than one
  command (\<open>create_bridge\<close>, \<open>delete_bridge\<close>, \<open>create_interface\<close>, of either
  client), if the commands before position \<open>k\<close> succeed and the one at position \<open>k\<close>
  fails with \<open>e\<close>, the operation raises \<open>e\<close> and the trace has grown by exactly the
  commands up to and including the failed one, in order: the earlier commands stay
  issued, no later command and no compensating command is issued.
\<close>

theorem no_rollback:
  assumes "k < length (steps K (cls self) op)"
    and "\<forall>i<k. ok (run self (tr @ map plain (take i (steps K (cls self) op)))
                      (plain (steps K (cls self) op ! i)))"
    and "run self (tr @ map plain (take k (steps K (cls self) op)))
           (plain (steps K (cls self) op ! k)) = Inl e"
  shows "perform K self op tr = (Inl e, tr @ map plain (take (Suc k) (steps K (cls self) op)))"
  using run_all_fails_at [OF assms] by (simp add: perform_run_all)

theorem no_rollback_witness:
  "perform host_constants
     (get_net_client False (fails_on [''/sbin/ip link set b.5.0 type bridge mcast_snooping 0'']))
     (Create_bridge ''b.5.0'') []
   = (Inl (CommandError 1 []),
      map plain
       [''/sbin/ip link add name b.5.0 type bridge'',
        ''/sbin/ip link set b.5.0 type bridge stp_state 0'',
        ''/sbin/ip link set b.5.0 type bridge forward_delay 0'',
        ''/sbin/ip link set b.5.0 type bridge mcast_snooping 0''])"
  using no_rollback [of 3 host_constants
      "get_net_client False (fails_on [''/sbin/ip link set b.5.0 type bridge mcast_snooping 0''])"
      "Create_bridge ''b.5.0''" "[]" "CommandError 1 []"]
  by (simp add: get_net_client_def host_constants_def fails_on_def plain_def
        numeral_3_eq_3 All_less_Suc)

section \<open>Single commands\<close>

text \<open>
  C5. \<open>create_gretap(device, address, local, ttl, key)\<close> issues one command. It
  always holds the remote address; after it come the modifiers \<open>local\<close>, \<open>ttl\<close> and
  \<open>key\<close>, each present exactly when its argument is not \<open>None\<close>, with the
  argument's value, in this fixed order. With only the address given the command ends
  with the remote address.
\<close>

theorem create_gretap_command:
  assumes "cmd = IP_BIN K @ '' link add '' @ device @ '' type gretap remote '' @ address
                   @ concat (map clause (gretap_modifiers local ttl key))"
  shows "create_gretap K (get_net_client use_ovs r) device address local ttl key tr =
           (case r tr (plain cmd) of Inl e \<Rightarrow> Inl e | Inr out \<Rightarrow> Inr (), tr @ [plain cmd])
    \<and> map fst (gretap_modifiers local ttl key) =
        (if local = None then [] else [''local'']) @ (if ttl = None then [] else [''ttl''])
          @ (if key = None then [] else [''key''])
    \<and> map snd (gretap_modifiers local ttl key) =
        (case local of None \<Rightarrow> [] | Some l \<Rightarrow> [l])
          @ (case ttl of None \<Rightarrow> [] | Some t \<Rightarrow> [str_int t])
          @ (case key of None \<Rightarrow> [] | Some k \<Rightarrow> [str_int k])
    \<and> (local = None \<and> ttl = None \<and> key = None \<longrightarrow>
         cmd = IP_BIN K @ '' link add '' @ device @ '' type gretap remote '' @ address)"
  using assms
  by (cases local; cases ttl; cases key)
     (simp_all add: create_gretap_def inherited_call LinuxNetClient_create_gretap_def
        discard_call_run_client gretap_modifiers_def clause_def
        split: sum.splits)

theorem create_gretap_command_witness:
  "issued_by (create_gretap host_constants (get_net_client False (answers [])) ''gt0'' ''10.0.0.2''
               (Some ''10.0.0.1'') (Some 255) (Some 1)) []
     = [plain ''/sbin/ip link add gt0 type gretap remote 10.0.0.2 local 10.0.0.1 ttl 255 key 1'']
   \<and> issued_by (create_gretap host_constants (get_net_client False (answers [])) ''gt0'' ''10.0.0.2''
               None None None) []
     = [plain ''/sbin/ip link add gt0 type gretap remote 10.0.0.2'']
   \<and> issued_by (create_gretap host_constants (get_net_client False (answers [])) ''gt0'' ''10.0.0.2''
               None None (Some 1)) []
     = [plain ''/sbin/ip link add gt0 type gretap remote 10.0.0.2 key 1'']"
  using create_gretap_command [of _ host_constants "''gt0''" "''10.0.0.2''" "Some ''10.0.0.1''"
      "Some 255" "Some 1" False "answers []" "[]", OF refl]
    create_gretap_command [of _ host_constants "''gt0''" "''10.0.0.2''" None None None
      False "answers []" "[]", OF refl]
    create_gretap_command [of _ host_constants "''gt0''" "''10.0.0.2''" None None "Some 1"
      False "answers []" "[]", OF refl]
  by (simp add: issued_by_def answers_def host_constants_def gretap_modifiers_def clause_def
        str_int_def str_nat.simps digit_char_def)

text \<open>
  C6. \<open>create_address(device, address, broadcast)\<close> issues one command: the form with
  the clause \<open>broadcast <value>\<close> between the address and the device when
  \<open>broadcast\<close> is given, the plain form when it is \<open>None\<close>; the two forms are never
  the same string.
\<close>

theorem create_address_forms:
  "create_address K (get_net_client use_ovs r) device address (Some b) tr =
     (case r tr (plain (IP_BIN K @ '' address add '' @ address @ '' broadcast '' @ b
                          @ '' dev '' @ device)) of
        Inl e \<Rightarrow> Inl e | Inr out \<Rightarrow> Inr (),
      tr @ [plain (IP_BIN K @ '' address add '' @ address @ '' broadcast '' @ b
                     @ '' dev '' @ device)])
   \<and> create_address K (get_net_client use_ovs r) device address None tr =
     (case r tr (plain (IP_BIN K @ '' address add '' @ address @ '' dev '' @ device)) of
        Inl e \<Rightarrow> Inl e | Inr out \<Rightarrow> Inr (),
      tr @ [plain (IP_BIN K @ '' address add '' @ address @ '' dev '' @ device)])
   \<and> IP_BIN K @ '' address add '' @ address @ '' broadcast '' @ b @ '' dev '' @ device
       \<noteq> IP_BIN K @ '' address add '' @ address @ '' dev '' @ device"
  by (simp add: create_address_def inherited_call LinuxNetClient_create_address_def
        discard_call_run_client split: sum.splits)

theorem create_address_forms_witness:
  "issued_by (create_address host_constants (get_net_client False (answers [])) ''eth0''
                ''10.0.0.1/24'' None) []
     = [plain ''/sbin/ip address add 10.0.0.1/24 dev eth0'']
   \<and> issued_by (create_address host_constants (get_net_client False (answers [])) ''eth0''
                ''10.0.0.1/24'' (Some ''10.0.0.255'')) []
     = [plain ''/sbin/ip address add 10.0.0.1/24 broadcast 10.0.0.255 dev eth0'']"
  using create_address_forms [of host_constants False "answers []" "''eth0''" "''10.0.0.1/24''"
      "''10.0.0.255''" "[]"]
  by (simp add: issued_by_def answers_def host_constants_def)

text \<open>
  C7. \<open>device_flush(device)\<close> issues a single command, with \<open>shell=True\<close>. Its
  text is the and-or list \<open>test && flush || true\<close>, where the test is that the device's
  file under \<open>/sys/class/net\<close> exists and the flush removes the device's IPv6
  addresses. When the test fails the flush does not run and \<open>true\<close> does; when it
  succeeds the flush runs next; the list exits with zero whenever \<open>true\<close> does. So
  on an executor that reports success for exit status zero, \<open>device_flush\<close> returns
  without raising, whether the device exists or not.
\<close>

theorem device_flush_conditional:
  assumes "call = \<lparr>args = ''[ -e /sys/class/net/'' @ device @ '' ] && '' @ IP_BIN K
                         @ '' -6 address flush dev '' @ device @ '' || true'',
                  shell = Some True\<rparr>"
    and "test = ''[ -e /sys/class/net/'' @ device @ '' ]''"
    and "flush = IP_BIN K @ '' -6 address flush dev '' @ device"
  shows "device_flush K (get_net_client use_ovs r) device tr =
           (case r tr call of Inl e \<Rightarrow> Inl e | Inr out \<Rightarrow> Inr (), tr @ [call])
    \<and> args call = sh_text (flush_script K device)
    \<and> flush_script K device = Or_if (And_if (Simple test) (Simple flush)) (Simple ''true'')
    \<and> (st test \<noteq> 0 \<longrightarrow> snd (sh_exec st (flush_script K device)) = [test, ''true''])
    \<and> (st test = 0 \<longrightarrow> take 2 (snd (sh_exec st (flush_script K device))) = [test, flush])
    \<and> (st ''true'' = 0 \<longrightarrow> fst (sh_exec st (flush_script K device)) = 0)
    \<and> (st ''true'' = 0 \<and> (fst (sh_exec st (flush_script K device)) = 0 \<longrightarrow> ok (r tr call)) \<longrightarrow>
         fst (device_flush K (get_net_client use_ovs r) device tr) = Inr ())"
proof -
  have 1: "device_flush K (get_net_client use_ovs r) device tr =
           (case r tr call of Inl e \<Rightarrow> Inl e | Inr out \<Rightarrow> Inr (), tr @ [call])"
    unfolding assms(1)
    by (simp add: device_flush_def inherited_call LinuxNetClient_device_flush_def discard_def
          bind_prog_def call_run_shell_def return_prog_def run_get_net_client split: sum.splits)
  have 2: "args call = sh_text (flush_script K device)"
    unfolding assms(1) by (simp add: flush_script_text)
  have 3: "flush_script K device = Or_if (And_if (Simple test) (Simple flush)) (Simple ''true'')"
    unfolding assms(2,3) by (simp add: flush_script_def)
  have 4: "st test \<noteq> 0 \<longrightarrow> snd (sh_exec st (flush_script K device)) = [test, ''true'']"
    unfolding assms(2) using flush_script_absent [of st device K] by blast
  have 5: "st test = 0 \<longrightarrow> take 2 (snd (sh_exec st (flush_script K device))) = [test, flush]"
    unfolding assms(2,3) using flush_script_present [of st device K] by blast
  have 6: "st ''true'' = 0 \<longrightarrow> fst (sh_exec st (flush_script K device)) = 0"
    using flush_script_status [of st K device] by blast
  have 7: "st ''true'' = 0 \<and> (fst (sh_exec st (flush_script K device)) = 0 \<longrightarrow> ok (r tr call)) \<longrightarrow>
         fst (device_flush K (get_net_client use_ovs r) device tr) = Inr ()"
  proof (intro impI, elim conjE)
    assume "st ''true'' = 0" and c: "fst (sh_exec st (flush_script K device)) = 0 \<longrightarrow> ok (r tr call)"
    with 6 have "ok (r tr call)" by blast
    then show "fst (device_flush K (get_net_client use_ovs r) device tr) = Inr ()"
      unfolding 1 by (cases "r tr call") simp_all
  qed
  from 1 2 3 4 5 6 7 show ?thesis by blast
qed

theorem device_flush_conditional_witness:
  "device_flush host_constants (get_net_client False (answers [])) ''eth9'' []
     = (Inr (), [\<lparr>args = ''[ -e /sys/class/net/eth9 ] && /sbin/ip -6 address flush dev eth9 || true'',
                  shell = Some True\<rparr>])
   \<and> sh_exec absent_device (flush_script host_constants ''eth9'')
     = (0, [''[ -e /sys/class/net/eth9 ]'', ''true''])"
proof -
  note w = device_flush_conditional [of _ "''eth9''" host_constants _ _ False "answers []" "[]"
      absent_device, OF refl refl refl]
  from w have "device_flush host_constants (get_net_client False (answers [])) ''eth9'' [] =
      (case answers [] []
              \<lparr>args = ''[ -e /sys/class/net/'' @ ''eth9'' @ '' ] && '' @ IP_BIN host_constants
                         @ '' -6 address flush dev '' @ ''eth9'' @ '' || true'',
               shell = Some True\<rparr> of
         Inl e \<Rightarrow> Inl e | Inr out \<Rightarrow> Inr (),
       [] @ [\<lparr>args = ''[ -e /sys/class/net/'' @ ''eth9'' @ '' ] && '' @ IP_BIN host_constants
                         @ '' -6 address flush dev '' @ ''eth9'' @ '' || true'',
               shell = Some True\<rparr>])"
    by (rule conjunct1)
  then have a: "device_flush host_constants (get_net_client False (answers [])) ''eth9'' []
     = (Inr (), [\<lparr>args = ''[ -e /sys/class/net/eth9 ] && /sbin/ip -6 address flush dev eth9 || true'',
                  shell = Some True\<rparr>])"
    by (simp add: answers_def host_constants_def)
  from w have "absent_device (''[ -e /sys/class/net/'' @ ''eth9'' @ '' ]'') \<noteq> 0 \<longrightarrow>
      snd (sh_exec absent_device (flush_script host_constants ''eth9''))
        = [''[ -e /sys/class/net/'' @ ''eth9'' @ '' ]'', ''true'']"
    by blast
  moreover have "absent_device (''[ -e /sys/class/net/'' @ ''eth9'' @ '' ]'') \<noteq> 0"
    by (simp add: absent_device_def)
  ultimately have b: "snd (sh_exec absent_device (flush_script host_constants ''eth9''))
      = [''[ -e /sys/class/net/eth9 ]'', ''true'']"
    by simp
  from w have "absent_device ''true'' = 0 \<longrightarrow>
      fst (sh_exec absent_device (flush_script host_constants ''eth9'')) = 0"
    by blast
  then have c: "fst (sh_exec absent_device (flush_script host_constants ''eth9'')) = 0"
    by (simp add: absent_device_def)
  from b c have "sh_exec absent_device (flush_script host_constants ''eth9'')
     = (0, [''[ -e /sys/class/net/eth9 ]'', ''true''])"
    by (simp add: prod_eq_iff)
  with a show ?thesis by blast
qed

section \<open>The two clients\<close>

text \<open>
  C10. For each of the eighteen operations that \<open>OvsNetClient\<close> does not override,
  and for all arguments, the client made for OVS and the client made for kernel bridges
  are the same program over the same \<open>run\<close>: the same invocations, the same result.
  The lookup of a method in \<open>OvsNetClient\<close> ends in that class for six methods only:
  bridge creation and deletion, interface attach and detach, bridge listing, and the
  disabling of MAC learning.
\<close>

theorem inherited_operations_agree:
  "set_hostname (get_net_client True r) name = set_hostname (get_net_client False r) name
   \<and> create_route K (get_net_client True r) route device
       = create_route K (get_net_client False r) route device
   \<and> device_up K (get_net_client True r) device = device_up K (get_net_client False r) device
   \<and> device_down K (get_net_client True r) device = device_down K (get_net_client False r) device
   \<and> device_name K (get_net_client True r) device name
       = device_name K (get_net_client False r) device name
   \<and> device_show K (get_net_client True r) device = device_show K (get_net_client False r) device
   \<and> get_mac (get_net_client True r) device = get_mac (get_net_client False r) device
   \<and> get_ifindex (get_net_client True r) device = get_ifindex (get_net_client False r) device
   \<and> device_ns K (get_net_client True r) device namespace
       = device_ns K (get_net_client False r) device namespace
   \<and> device_flush K (get_net_client True r) device = device_flush K (get_net_client False r) device
   \<and> device_mac K (get_net_client True r) device mac
       = device_mac K (get_net_client False r) device mac
   \<and> delete_device K (get_net_client True r) device
       = delete_device K (get_net_client False r) device
   \<and> delete_tc K (get_net_client True r) device = delete_tc K (get_net_client False r) device
   \<and> checksums_off K (get_net_client True r) interface_name
       = checksums_off K (get_net_client False r) interface_name
   \<and> create_address K (get_net_client True r) device address broadcast
       = create_address K (get_net_client False r) device address broadcast
   \<and> delete_address K (get_net_client True r) device address
       = delete_address K (get_net_client False r) device address
   \<and> create_veth K (get_net_client True r) name peer
       = create_veth K (get_net_client False r) name peer
   \<and> create_gretap K (get_net_client True r) device address local ttl key
       = create_gretap K (get_net_client False r) device address local ttl key
   \<and> (resolve OvsNetClient m = Some OvsNetClient \<longleftrightarrow>
        m \<in> {M_create_bridge, M_delete_bridge, M_create_interface, M_delete_interface,
              M_existing_bridges, M_disable_mac_learning})"
proof -
  have same_run: "call_run (get_net_client True r) = call_run (get_net_client False r)"
    by (intro ext) (simp add: call_run_def run_get_net_client)
  have call_shell: "call_run_shell (get_net_client True r) = call_run_shell (get_net_client False r)"
    by (intro ext) (simp add: call_run_shell_def run_get_net_client)
  have look: "\<And>m. m \<notin> set (defined_in OvsNetClient) \<Longrightarrow>
      resolve (cls (get_net_client True r)) m = Some LinuxNetClient
      \<and> resolve (cls (get_net_client False r)) m = Some LinuxNetClient"
    by (simp add: inherited_call)
  have own: "resolve OvsNetClient m = Some OvsNetClient \<longleftrightarrow>
        m \<in> {M_create_bridge, M_delete_bridge, M_create_interface, M_delete_interface,
              M_existing_bridges, M_disable_mac_learning}"
    by (cases m) (simp_all add: resolve_OvsNetClient)
  show ?thesis
    unfolding own
    by (simp add: look same_run call_shell
      set_hostname_def LinuxNetClient_set_hostname_def
      create_route_def LinuxNetClient_create_route_def
      device_up_def LinuxNetClient_device_up_def
      device_down_def LinuxNetClient_device_down_def
      device_name_def LinuxNetClient_device_name_def
      device_show_def LinuxNetClient_device_show_def
      get_mac_def LinuxNetClient_get_mac_def
      get_ifindex_def LinuxNetClient_get_ifindex_def
      device_ns_def LinuxNetClient_device_ns_def
      device_flush_def LinuxNetClient_device_flush_def
      device_mac_def LinuxNetClient_device_mac_def
      delete_device_def LinuxNetClient_delete_device_def
      delete_tc_def LinuxNetClient_delete_tc_def
      checksums_off_def LinuxNetClient_checksums_off_def
      create_address_def LinuxNetClient_create_address_def
      delete_address_def LinuxNetClient_delete_address_def
      create_veth_def LinuxNetClient_create_veth_def
      create_gretap_def LinuxNetClient_create_gretap_def split: option.splits)
qed

theorem inherited_operations_agree_witness:
  "device_up host_constants (get_net_client True (answers [])) ''veth0'' []
     = device_up host_constants (get_net_client False (answers [])) ''veth0'' []
   \<and> device_up host_constants (get_net_client False (answers [])) ''veth0'' []
     = (Inr (), [plain ''/sbin/ip link set veth0 up''])
   \<and> resolve OvsNetClient M_device_up \<noteq> Some OvsNetClient"
proof -
  note w = inherited_operations_agree [where r = "answers []" and K = host_constants
      and device = "''veth0''" and m = M_device_up]
  from w have a: "device_up host_constants (get_net_client True (answers [])) ''veth0''
     = device_up host_constants (get_net_client False (answers [])) ''veth0''"
    by blast
  have b: "device_up host_constants (get_net_client False (answers [])) ''veth0'' []
     = (Inr (), [plain ''/sbin/ip link set veth0 up''])"
    by (simp add: device_up_run_all host_constants_def answers_def run_get_net_client)
  from w have "resolve OvsNetClient M_device_up = Some OvsNetClient \<longleftrightarrow>
       M_device_up \<in> {M_create_bridge, M_delete_bridge, M_create_interface, M_delete_interface,
              M_existing_bridges, M_disable_mac_learning}"
    by blast
  then have c: "resolve OvsNetClient M_device_up \<noteq> Some OvsNetClient"
    by simp
  from a b c show ?thesis by simp
qed

section \<open>Bridge listing\<close>

text \<open>
  C1. \<open>existing_bridges(id)\<close> should report a bridge exactly when the listing has a
  name of three dot-separated fields with first field \<open>b\<close> and second field the node
  id, for both clients. The kernel-bridge client does so
  (\<open>LinuxNetClient_existing_bridges_listing\<close>). The OVS client does not count the
  fields: on the listing of the two names \<open>br0\<close> and \<open>b.5.0.1\<close>, neither of which
  is a bridge of node 5, it returns \<open>True\<close> for node 5, where the kernel-bridge client
  returns \<open>False\<close> on the same two names.
\<close>

theorem ovs_existing_bridges_extra_fields:
  "existing_bridges host_constants (loads_as JNull)
       (get_net_client True (answers (''br0'' @ [CHR 0x0A] @ ''b.5.0.1''))) ''5'' []
     = (Inr True, [plain ''/usr/bin/ovs-vsctl list-br''])
   \<and> \<not> is_node_bridge ''5'' ''br0''
   \<and> \<not> is_node_bridge ''5'' ''b.5.0.1''
   \<and> existing_bridges host_constants
       (loads_as (JArr [JObj [(''ifname'', JStr ''br0'')], JObj [(''ifname'', JStr ''b.5.0.1'')]]))
       (get_net_client False (answers [])) ''5'' []
     = (Inr False, [plain ''/sbin/ip -j link show type bridge''])"
  by (simp add: existing_bridges_ovs existing_bridges_linux OvsNetClient_existing_bridges_def
        LinuxNetClient_existing_bridges_def bind_prog_def call_run_def
        run_get_net_client answers_def loads_as_def item_def return_prog_def host_constants_def
        plain_def is_node_bridge_def)




end
